theory Spec2Isabelle
  imports Complex_Main
begin

section \<open>Keyword-spotting search over a time-aligned transcript\<close>

text \<open>
  A shallow embedding of \<^verbatim>\<open>src/main.py\<close>: the reference loader \<^verbatim>\<open>parse_ctm\<close>,
  the query loader \<^verbatim>\<open>parse_queries\<close> and the matcher \<^verbatim>\<open>perform_kws_search\<close>.

  Conventions of the model.
  \<^item> A pandas DataFrame is the list of its rows, in row order. A DataFrame built from
    an empty list of dicts has no columns, so the empty list stands for a frame on which
    every column access raises \<^verbatim>\<open>KeyError\<close>.
  \<^item> Python floats are exact rationals: rounding, \<^verbatim>\<open>nan\<close> and \<^verbatim>\<open>inf\<close> are outside
    the model. The only missing value that occurs is the first entry of
    \<^verbatim>\<open>Series.diff()\<close>, modelled by \<open>None\<close>.
  \<^item> A character is a code point below 256.
  \<^item> Every \<^verbatim>\<open>raise\<close> is a value \<open>Inl e\<close> and ends the run, as the uncaught
    exception does.
\<close>

subsection \<open>Data model\<close>

datatype error = ValueError | IndexError | KeyError | AttributeError

record word_occurrence =
  file_id :: string
  channel :: string
  start_time :: rat
  duration :: rat
  word :: string
  confidence :: rat

record query =
  kwid :: string
  phrase :: string
  words :: "string list"

record hit =
  hit_kwid :: string
  hit_file_id :: string
  hit_channel :: string
  hit_start_time :: rat
  hit_duration :: rat
  hit_score :: rat
  hit_decision :: string

subsection \<open>Python string helpers\<close>

text \<open>\<^verbatim>\<open>str.isspace\<close> on one character, for code points below 256.\<close>

definition is_space :: "char \<Rightarrow> bool" where
  "is_space c \<longleftrightarrow> (of_char c :: nat) \<in> {9, 10, 11, 12, 13, 28, 29, 30, 31, 32, 133, 160}"

text \<open>\<^verbatim>\<open>s.strip()\<close>: leading and trailing whitespace removed.\<close>

definition py_strip :: "string \<Rightarrow> string" where
  "py_strip s = rev (dropWhile is_space (rev (dropWhile is_space s)))"

text \<open>
  \<^verbatim>\<open>s.split()\<close>: the maximal runs of non-whitespace characters, in order. The first
  argument is the token read so far.
\<close>

fun split_from :: "string \<Rightarrow> string \<Rightarrow> string list" where
  "split_from cur [] = (if cur = [] then [] else [cur])"
| "split_from cur (c # cs) =
     (if is_space c then (if cur = [] then split_from [] cs else cur # split_from [] cs)
      else split_from (cur @ [c]) cs)"

definition py_split :: "string \<Rightarrow> string list" where
  "py_split s = split_from [] s"

subsection \<open>Reference loader\<close>

text \<open>
  \<^verbatim>\<open>float\<close> is Python's builtin; the loader takes it as the parameter \<open>to_float\<close>,
  with \<open>None\<close> for the strings on which it raises \<^verbatim>\<open>ValueError\<close>. The dict literal
  evaluates \<^verbatim>\<open>float(start_time)\<close>, \<^verbatim>\<open>float(duration)\<close>, \<^verbatim>\<open>float(confidence)\<close> in
  this order. \<open>ctm_record\<close> is applied to \<^verbatim>\<open>parts[:6]\<close>, a list of six strings.
\<close>

definition ctm_record :: "(string \<Rightarrow> rat option) \<Rightarrow> string list \<Rightarrow> error + word_occurrence" where
  "ctm_record to_float parts =
     (case to_float (parts ! 2) of
        None \<Rightarrow> Inl ValueError
      | Some st \<Rightarrow>
         (case to_float (parts ! 3) of
            None \<Rightarrow> Inl ValueError
          | Some du \<Rightarrow>
             (case to_float (parts ! 5) of
                None \<Rightarrow> Inl ValueError
              | Some co \<Rightarrow>
                 Inr \<lparr>file_id = parts ! 0, channel = parts ! 1, start_time = st,
                      duration = du, word = parts ! 4, confidence = co\<rparr>)))"

text \<open>The loop \<^verbatim>\<open>for line in f\<close>, with the list \<^verbatim>\<open>index\<close> built so far.\<close>

fun parse_ctm_lines ::
  "(string \<Rightarrow> rat option) \<Rightarrow> string list \<Rightarrow> word_occurrence list \<Rightarrow> error + word_occurrence list"
where
  "parse_ctm_lines to_float [] index = Inr index"
| "parse_ctm_lines to_float (line # f) index =
     (let parts = py_split (py_strip line) in
      if length parts < 6 then parse_ctm_lines to_float f index
      else
        (case ctm_record to_float (take 6 parts) of
           Inl e \<Rightarrow> Inl e
         | Inr r \<Rightarrow> parse_ctm_lines to_float f (index @ [r])))"

definition parse_ctm :: "(string \<Rightarrow> rat option) \<Rightarrow> string list \<Rightarrow> error + word_occurrence list" where
  "parse_ctm to_float f = parse_ctm_lines to_float f []"

subsection \<open>Query loader\<close>

text \<open>
  The XML parser is a library; a \<^verbatim>\<open>kw\<close> element is given by its \<^verbatim>\<open>kwid\<close> attribute and
  the text of its \<^verbatim>\<open>kwtext\<close> child, \<open>None\<close> when the child is absent or has no text
  (\<^verbatim>\<open>.text\<close> or \<^verbatim>\<open>.strip\<close> then raises \<^verbatim>\<open>AttributeError\<close>).
\<close>

fun parse_kws :: "(string \<times> string option) list \<Rightarrow> query list \<Rightarrow> error + query list" where
  "parse_kws [] queries = Inr queries"
| "parse_kws ((k, None) # kws) queries = Inl AttributeError"
| "parse_kws ((k, Some t) # kws) queries =
     parse_kws kws
       (queries @ [\<lparr>kwid = k, phrase = py_strip t, words = py_split (py_strip t)\<rparr>])"

definition parse_queries :: "(string \<times> string option) list \<Rightarrow> error + query list" where
  "parse_queries kws = parse_kws kws []"

subsection \<open>Phrase matcher\<close>

text \<open>\<^verbatim>\<open>Series.diff()\<close>: the first entry is missing, the others are successive differences.\<close>

fun diff :: "rat list \<Rightarrow> rat option list" where
  "diff [] = []"
| "diff (x # xs) = None # map (\<lambda>(a, b). Some (b - a)) (zip (x # xs) xs)"

definition fillna :: "rat \<Rightarrow> rat option list \<Rightarrow> rat list" where
  "fillna v s = map (\<lambda>d. case d of None \<Rightarrow> v | Some x \<Rightarrow> x) s"

definition mean :: "rat list \<Rightarrow> rat" where
  "mean xs = sum_list xs / of_nat (length xs)"

text \<open>\<^verbatim>\<open>range(n)\<close> is empty for \<open>n \<le> 0\<close>.\<close>

definition py_range :: "int \<Rightarrow> nat list" where
  "py_range n = [0..<nat n]"

text \<open>\<^verbatim>\<open>df.iloc[i : j]\<close> for \<open>0 \<le> i \<le> j\<close>; a slice past the end is cut, not an error.\<close>

definition iloc_slice :: "'a list \<Rightarrow> nat \<Rightarrow> nat \<Rightarrow> 'a list" where
  "iloc_slice df i j = take (j - i) (drop i df)"

text \<open>The dict appended to \<^verbatim>\<open>hits\<close>, for a segment with at least one row.\<close>

definition make_hit :: "query \<Rightarrow> word_occurrence list \<Rightarrow> hit" where
  "make_hit q segment =
     (let start = start_time (hd segment);
          end_time = start_time (last segment) + duration (last segment)
      in \<lparr>hit_kwid = kwid q,
          hit_file_id = file_id (hd segment),
          hit_channel = channel (hd segment),
          hit_start_time = start,
          hit_duration = end_time - start,
          hit_score = mean (map confidence segment),
          hit_decision = ''YES''\<rparr>)"

text \<open>
  The body of the inner loop at offset \<open>i\<close>. \<^verbatim>\<open>segment['word']\<close> raises \<^verbatim>\<open>KeyError\<close>
  on a frame without columns, and \<^verbatim>\<open>segment.iloc[0]\<close> raises \<^verbatim>\<open>IndexError\<close> on a
  segment without rows.
\<close>

definition search_at :: "word_occurrence list \<Rightarrow> query \<Rightarrow> nat \<Rightarrow> hit list \<Rightarrow> error + hit list" where
  "search_at index_df q i hits =
     (let num_words = length (words q);
          segment = iloc_slice index_df i (i + num_words)
      in if index_df = [] then Inl KeyError
         else if map word segment = words q then
           (let time_diffs = fillna 0 (diff (map start_time segment))
            in if list_all (\<lambda>d. d \<le> 1 / 2) (drop 1 time_diffs) then
                 (if segment = [] then Inl IndexError
                  else Inr (hits @ [make_hit q segment]))
               else Inr hits)
         else Inr hits)"

fun search_offsets ::
  "word_occurrence list \<Rightarrow> query \<Rightarrow> nat list \<Rightarrow> hit list \<Rightarrow> error + hit list"
where
  "search_offsets index_df q [] hits = Inr hits"
| "search_offsets index_df q (i # rest) hits =
     (case search_at index_df q i hits of
        Inl e \<Rightarrow> Inl e
      | Inr hits' \<Rightarrow> search_offsets index_df q rest hits')"

fun search_queries :: "word_occurrence list \<Rightarrow> query list \<Rightarrow> hit list \<Rightarrow> error + hit list" where
  "search_queries index_df [] hits = Inr hits"
| "search_queries index_df (q # rest) hits =
     (case search_offsets index_df q
             (py_range (int (length index_df) - int (length (words q)) + 1)) hits of
        Inl e \<Rightarrow> Inl e
      | Inr hits' \<Rightarrow> search_queries index_df rest hits')"

definition perform_kws_search :: "word_occurrence list \<Rightarrow> query list \<Rightarrow> error + hit list" where
  "perform_kws_search index_df queries_df = search_queries index_df queries_df []"

subsection \<open>The matcher as the design describes it\<close>

text \<open>
  The start offsets \<open>i\<close> with \<open>0 \<le> i \<le> N - L\<close>, in increasing order, for a
  reference of \<open>N\<close> records and a phrase of \<open>L\<close> tokens.
\<close>

definition start_offsets :: "nat \<Rightarrow> nat \<Rightarrow> nat list" where
  "start_offsets n l = filter (\<lambda>i. i + l \<le> n) [0..<Suc n]"

text \<open>
  The window of \<open>length ws\<close> records at offset \<open>i\<close> qualifies: its word fields are
  the tokens \<open>ws\<close> in order, and each of its successive start-time differences is at
  most half a second.
\<close>

definition window_qualifies :: "word_occurrence list \<Rightarrow> string list \<Rightarrow> nat \<Rightarrow> bool" where
  "window_qualifies ref ws i \<longleftrightarrow>
     (\<forall>j < length ws. word (ref ! (i + j)) = ws ! j) \<and>
     (\<forall>j < length ws - 1.
        start_time (ref ! (i + j + 1)) - start_time (ref ! (i + j)) \<le> 1 / 2)"

text \<open>
  The qualifying windows of a run, as pairs of a query and a start offset: query by query,
  and within a query by increasing offset.
\<close>

definition matched_windows :: "word_occurrence list \<Rightarrow> query list \<Rightarrow> (query \<times> nat) list" where
  "matched_windows ref qs =
     concat (map (\<lambda>q. map (Pair q)
                    (filter (window_qualifies ref (words q))
                       (start_offsets (length ref) (length (words q))))) qs)"

text \<open>The hit of the window of query \<open>q\<close> at offset \<open>i\<close>.\<close>

definition window_hit :: "word_occurrence list \<Rightarrow> query \<times> nat \<Rightarrow> hit" where
  "window_hit ref = (\<lambda>(q, i). make_hit q (iloc_slice ref i (i + length (words q))))"

subsection \<open>The loader as the design describes it\<close>

definition ctm_fields :: "string \<Rightarrow> string list" where
  "ctm_fields line = py_split (py_strip line)"

definition numeric_fields_parse :: "(string \<Rightarrow> rat option) \<Rightarrow> string list \<Rightarrow> bool" where
  "numeric_fields_parse to_float parts \<longleftrightarrow>
     to_float (parts ! 2) \<noteq> None \<and> to_float (parts ! 3) \<noteq> None \<and>
     to_float (parts ! 5) \<noteq> None"

text \<open>The record of a line whose fields are \<open>parts\<close>: only the first six fields are read.\<close>

definition record_of :: "(string \<Rightarrow> rat option) \<Rightarrow> string list \<Rightarrow> word_occurrence" where
  "record_of to_float parts =
     \<lparr>file_id = parts ! 0, channel = parts ! 1, start_time = the (to_float (parts ! 2)),
      duration = the (to_float (parts ! 3)), word = parts ! 4,
      confidence = the (to_float (parts ! 5))\<rparr>"

subsection \<open>Example inputs\<close>

text \<open>Scenario A of the design: two records, 0.3 seconds apart, and the query "go home".\<close>

definition scenario_a_reference :: "word_occurrence list" where
  "scenario_a_reference =
     [\<lparr>file_id = ''f1'', channel = ''1'', start_time = 0, duration = 2 / 10,
       word = ''go'', confidence = 9 / 10\<rparr>,
      \<lparr>file_id = ''f1'', channel = ''1'', start_time = 3 / 10, duration = 2 / 10,
       word = ''home'', confidence = 8 / 10\<rparr>]"

definition scenario_a_query :: query where
  "scenario_a_query = \<lparr>kwid = ''K1'', phrase = ''go home'', words = [''go'', ''home'']\<rparr>"

definition scenario_a_hit :: hit where
  "scenario_a_hit =
     \<lparr>hit_kwid = ''K1'', hit_file_id = ''f1'', hit_channel = ''1'', hit_start_time = 0,
      hit_duration = 1 / 2, hit_score = 17 / 20, hit_decision = ''YES''\<rparr>"

text \<open>
  A repeated token across a file boundary: the windows of "a a" at offsets 0 and 1 overlap
  and qualify, the one at offset 2 has a start-time difference of 0.9 seconds.
\<close>

definition overlap_reference :: "word_occurrence list" where
  "overlap_reference =
     [\<lparr>file_id = ''f1'', channel = ''1'', start_time = 0, duration = 2 / 10,
       word = ''a'', confidence = 1\<rparr>,
      \<lparr>file_id = ''f1'', channel = ''1'', start_time = 3 / 10, duration = 2 / 10,
       word = ''a'', confidence = 1 / 2\<rparr>,
      \<lparr>file_id = ''f2'', channel = ''2'', start_time = 6 / 10, duration = 2 / 10,
       word = ''a'', confidence = 1 / 4\<rparr>,
      \<lparr>file_id = ''f2'', channel = ''2'', start_time = 15 / 10, duration = 2 / 10,
       word = ''a'', confidence = 1\<rparr>]"

definition overlap_query :: query where
  "overlap_query = \<lparr>kwid = ''K2'', phrase = ''a a'', words = [''a'', ''a'']\<rparr>"

definition overlap_hits :: "hit list" where
  "overlap_hits =
     [\<lparr>hit_kwid = ''K2'', hit_file_id = ''f1'', hit_channel = ''1'', hit_start_time = 0,
       hit_duration = 1 / 2, hit_score = 3 / 4, hit_decision = ''YES''\<rparr>,
      \<lparr>hit_kwid = ''K2'', hit_file_id = ''f1'', hit_channel = ''1'',
       hit_start_time = 3 / 10, hit_duration = 1 / 2, hit_score = 3 / 8,
       hit_decision = ''YES''\<rparr>]"




text \<open>The query that the loader builds from a \<^verbatim>\<open>kwtext\<close> holding a single space.\<close>

definition blank_query :: query where
  "blank_query = \<lparr>kwid = ''K1'', phrase = [], words = []\<rparr>"

text \<open>
  A stand-in for \<^verbatim>\<open>float\<close> on the strings of the examples: it agrees with Python on
  the five decimal strings listed and on the strings \<^verbatim>\<open>abc\<close> and \<^verbatim>\<open>n/a\<close>, which
  Python rejects.
\<close>

definition example_float :: "string \<Rightarrow> rat option" where
  "example_float = map_of [(''0.0'', 0), (''0.2'', 2 / 10), (''0.3'', 3 / 10),
     (''0.8'', 8 / 10), (''0.9'', 9 / 10)]"

text \<open>Scenario D of the design: two valid lines among three lines with fewer than six fields.\<close>

definition scenario_d_lines :: "string list" where
  "scenario_d_lines =
     [''f1 1 0.0'',
      ''f1 1 0.0 0.2 go 0.9'',
      [],
      ''  f1 1 0.3 0.2 home 0.8 extra fields'',
      ''f1 1 0.3 0.2 home'']"

definition unparsable_lines :: "string list" where
  "unparsable_lines =
     [''f1 1 0.0 0.2 go 0.9'',
      ''f1 1 0.3 0.2 home n/a'',
      ''f1 1 0.3 0.2 home 0.8'']"

section \<open>Properties of the matcher\<close>

subsection \<open>Offsets, differences and segments\<close>

lemma filter_upt_less: "filter (\<lambda>i. i < k) [0..<m] = [0..<min k m]"
proof (induction m)
  case 0
  show ?case by simp
next
  case (Suc m)
  show ?case
  proof (cases "m < k")
    case True
    then have "min k (Suc m) = Suc m" "min k m = m" by simp_all
    with Suc True show ?thesis by simp
  next
    case False
    then have "min k (Suc m) = k" "min k m = k" by simp_all
    with Suc False show ?thesis by simp
  qed
qed

lemma py_range_start_offsets: "py_range (int n - int l + 1) = start_offsets n l"
proof -
  have "(\<lambda>i. i + l \<le> n) = (\<lambda>i. i < Suc n - l)" by (rule ext) arith
  then have "start_offsets n l = [0..<min (Suc n - l) (Suc n)]"
    by (simp only: start_offsets_def filter_upt_less)
  also have "min (Suc n - l) (Suc n) = Suc n - l" by simp
  also have "Suc n - l = nat (int n - int l + 1)" by arith
  finally show ?thesis by (simp only: py_range_def)
qed

lemma start_offsets_bound: "i \<in> set (start_offsets n l) \<Longrightarrow> i + l \<le> n"
  by (simp add: start_offsets_def del: upt_Suc)


lemma time_diffs_tail:
  "drop 1 (fillna v (diff xs)) = map (\<lambda>(a, b). b - a) (zip xs (tl xs))"
  by (cases xs) (simp_all add: fillna_def comp_def case_prod_unfold)

lemma time_check_iff:
  "list_all (\<lambda>d. d \<le> c) (drop 1 (fillna v (diff xs))) \<longleftrightarrow>
     (\<forall>j < length xs - 1. xs ! (j + 1) - xs ! j \<le> c)"
  unfolding time_diffs_tail
  by (cases xs) (auto simp: list_all_iff set_zip nth_tl)

lemma segment_nth:
  "i + l \<le> length df \<Longrightarrow> j < l \<Longrightarrow> iloc_slice df i (i + l) ! j = df ! (i + j)"
  by (simp add: iloc_slice_def)

lemma segment_length:
  "i + l \<le> length df \<Longrightarrow> length (iloc_slice df i (i + l)) = l"
  by (simp add: iloc_slice_def)

lemma segment_hd_last:
  assumes "l \<noteq> 0" and "i + l \<le> length df"
  shows "hd (iloc_slice df i (i + l)) = df ! i"
    and "last (iloc_slice df i (i + l)) = df ! (i + l - 1)"
proof -
  have len: "length (iloc_slice df i (i + l)) = l" using assms(2) by (rule segment_length)
  then have ne: "iloc_slice df i (i + l) \<noteq> []" using assms(1) by auto
  show "hd (iloc_slice df i (i + l)) = df ! i"
    using segment_nth[OF assms(2), of 0] assms(1) by (simp add: hd_conv_nth[OF ne])
  show "last (iloc_slice df i (i + l)) = df ! (i + l - 1)"
    using segment_nth[OF assms(2), of "l - 1"] assms(1) by (simp add: last_conv_nth[OF ne] len)
qed


lemma make_hit_fields:
  "hit_kwid (make_hit q seg) = kwid q"
  "hit_file_id (make_hit q seg) = file_id (hd seg)"
  "hit_channel (make_hit q seg) = channel (hd seg)"
  "hit_start_time (make_hit q seg) = start_time (hd seg)"
  "hit_duration (make_hit q seg) =
     start_time (last seg) + duration (last seg) - start_time (hd seg)"
  "hit_score (make_hit q seg) = mean (map confidence seg)"
  "hit_decision (make_hit q seg) = ''YES''"
  by (simp_all add: make_hit_def Let_def)

lemma mean_bounds:
  fixes xs :: "rat list"
  assumes "xs \<noteq> []"
  shows "Min (set xs) \<le> mean xs" and "mean xs \<le> Max (set xs)"
proof -
  have n: "0 < (of_nat (length xs) :: rat)" using assms by simp
  have lo: "of_nat (length ys) * m \<le> sum_list ys" if "\<forall>y \<in> set ys. m \<le> y" for ys and m :: rat
    using that by (induction ys) (auto simp: algebra_simps)
  have hi: "sum_list ys \<le> of_nat (length ys) * m" if "\<forall>y \<in> set ys. y \<le> m" for ys and m :: rat
    using that by (induction ys) (auto simp: algebra_simps)
  have "of_nat (length xs) * Min (set xs) \<le> sum_list xs" by (rule lo) simp
  then show "Min (set xs) \<le> mean xs"
    using n by (simp add: mean_def pos_le_divide_eq mult.commute)
  have "sum_list xs \<le> of_nat (length xs) * Max (set xs)" by (rule hi) simp
  then show "mean xs \<le> Max (set xs)"
    using n by (simp add: mean_def pos_divide_le_eq mult.commute)
qed

subsection \<open>The loops\<close>

text \<open>One step of the inner loop on a window that lies inside the reference.\<close>

lemma search_at_window:
  assumes "words q \<noteq> []" and "i + length (words q) \<le> length index_df"
  shows "search_at index_df q i hits =
     Inr (if window_qualifies index_df (words q) i
          then hits @ [make_hit q (iloc_slice index_df i (i + length (words q)))]
          else hits)"
proof -
  let ?l = "length (words q)"
  let ?seg = "iloc_slice index_df i (i + ?l)"
  have len: "length ?seg = ?l" using assms(2) by (rule segment_length)
  have ne: "index_df \<noteq> []" "?seg \<noteq> []" using assms len by auto
  have w: "map word ?seg = words q \<longleftrightarrow> (\<forall>j < ?l. word (index_df ! (i + j)) = words q ! j)"
    using len assms(2) by (auto simp: list_eq_iff_nth_eq segment_nth)
  have t: "list_all (\<lambda>d. d \<le> 1 / 2) (drop 1 (fillna 0 (diff (map start_time ?seg)))) \<longleftrightarrow>
      (\<forall>j < ?l - 1. start_time (index_df ! (i + j + 1)) - start_time (index_df ! (i + j)) \<le> 1 / 2)"
    unfolding time_check_iff using len assms(2) by (simp add: segment_nth add.assoc)
  show ?thesis
    unfolding search_at_def Let_def window_qualifies_def w t using ne by auto
qed

lemma search_offsets_windows:
  assumes "words q \<noteq> []" and "\<forall>i \<in> set offs. i + length (words q) \<le> length index_df"
  shows "search_offsets index_df q offs hits =
     Inr (hits @ map (\<lambda>i. window_hit index_df (q, i))
                   (filter (window_qualifies index_df (words q)) offs))"
  using assms(2)
proof (induction offs arbitrary: hits)
  case Nil
  show ?case by simp
next
  case (Cons i offs)
  from Cons.prems have i: "i + length (words q) \<le> length index_df"
    and rest: "\<forall>i \<in> set offs. i + length (words q) \<le> length index_df" by simp_all
  show ?case
    by (simp add: search_at_window[OF assms(1) i] Cons.IH[OF rest] window_hit_def)
qed

lemma search_queries_hits:
  assumes "\<forall>q \<in> set qs. words q \<noteq> []"
  shows "search_queries index_df qs hits =
     Inr (hits @ map (window_hit index_df) (matched_windows index_df qs))"
  using assms
proof (induction qs arbitrary: hits)
  case Nil
  show ?case by (simp add: matched_windows_def)
next
  case (Cons q qs)
  from Cons.prems have q: "words q \<noteq> []" and rest: "\<forall>q \<in> set qs. words q \<noteq> []"
    by simp_all
  have b: "\<forall>i \<in> set (start_offsets (length index_df) (length (words q))).
      i + length (words q) \<le> length index_df"
    by (simp add: start_offsets_bound)
  have "search_offsets index_df q
          (py_range (int (length index_df) - int (length (words q)) + 1)) hits =
        Inr (hits @ map (window_hit index_df) (matched_windows index_df [q]))"
    unfolding py_range_start_offsets search_offsets_windows[OF q b]
    by (simp add: matched_windows_def comp_def)
  then show ?case
    by (simp add: Cons.IH[OF rest] matched_windows_def)
qed

text \<open>A query without words stops the run at offset 0.\<close>

lemma empty_words_raise:
  assumes "words q = []"
  shows "search_offsets index_df q
           (py_range (int (length index_df) - int (length (words q)) + 1)) hits =
         Inl (if index_df = [] then KeyError else IndexError)"
proof -
  have "py_range (int (length index_df) - int (length (words q)) + 1) =
      0 # [1..<Suc (length index_df)]"
    using assms by (simp add: py_range_def nat_add_distrib upt_conv_Cons del: upt_Suc)
  moreover have "search_at index_df q 0 hits = Inl (if index_df = [] then KeyError else IndexError)"
    using assms by (simp add: search_at_def iloc_slice_def fillna_def)
  ultimately show ?thesis by simp
qed

lemma search_queries_ok_words:
  "search_queries index_df qs hits = Inr hits' \<Longrightarrow> \<forall>q \<in> set qs. words q \<noteq> []"
proof (induction qs arbitrary: hits)
  case Nil
  show ?case by simp
next
  case (Cons q qs)
  show ?case
  proof (cases "words q = []")
    case True
    from empty_words_raise[OF True, of index_df hits] Cons.prems show ?thesis by simp
  next
    case False
    with Cons show ?thesis by (auto split: sum.splits)
  qed
qed

lemma search_result:
  assumes "perform_kws_search index_df qs = Inr hits"
  shows "hits = map (window_hit index_df) (matched_windows index_df qs)"
proof -
  from assms have "\<forall>q \<in> set qs. words q \<noteq> []"
    unfolding perform_kws_search_def by (rule search_queries_ok_words)
  from search_queries_hits[OF this, of index_df "[]"] assms show ?thesis
    by (simp add: perform_kws_search_def)
qed

lemma matched_windows_sound:
  assumes "(q, i) \<in> set (matched_windows index_df qs)"
  shows "q \<in> set qs \<and> i + length (words q) \<le> length index_df \<and>
         window_qualifies index_df (words q) i"
  using assms by (auto simp: matched_windows_def start_offsets_def simp del: upt_Suc)

text \<open>The \<open>n\<close>-th hit of a run comes from the \<open>n\<close>-th qualifying window.\<close>

lemma emitted_hit:
  assumes "perform_kws_search index_df qs = Inr hits"
    and "n < length hits"
    and "matched_windows index_df qs ! n = (q, i)"
  shows "hits ! n = make_hit q (iloc_slice index_df i (i + length (words q)))"
    and "q \<in> set qs" and "words q \<noteq> []"
    and "i + length (words q) \<le> length index_df"
    and "window_qualifies index_df (words q) i"
proof -
  note r = search_result[OF assms(1)]
  from r assms(2) have n: "n < length (matched_windows index_df qs)" by simp
  with assms(3) have m: "(q, i) \<in> set (matched_windows index_df qs)"
    by (metis nth_mem)
  from r n assms(3) show "hits ! n = make_hit q (iloc_slice index_df i (i + length (words q)))"
    by (simp add: window_hit_def)
  from matched_windows_sound[OF m] show "q \<in> set qs"
    and "i + length (words q) \<le> length index_df"
    and "window_qualifies index_df (words q) i" by simp_all
  from assms(1) have "\<forall>q \<in> set qs. words q \<noteq> []"
    unfolding perform_kws_search_def by (rule search_queries_ok_words)
  with \<open>q \<in> set qs\<close> show "words q \<noteq> []" by simp
qed

lemma exceeding_query_no_hits:
  assumes "length index_df < length (words q)"
  shows "search_offsets index_df q
           (py_range (int (length index_df) - int (length (words q)) + 1)) hits = Inr hits"
proof -
  from assms have "nat (int (length index_df) - int (length (words q)) + 1) = 0" by arith
  then show ?thesis by (simp add: py_range_def)
qed

lemma search_queries_skip:
  assumes "length index_df < length (words q)"
  shows "search_queries index_df (qs1 @ q # qs2) hits = search_queries index_df (qs1 @ qs2) hits"
proof (induction qs1 arbitrary: hits)
  case Nil
  show ?case by (simp add: exceeding_query_no_hits[OF assms])
next
  case (Cons a qs1)
  show ?case by (simp add: Cons.IH split: sum.splits)
qed

subsection \<open>The examples, evaluated\<close>

lemma window_qualifies_list:
  "window_qualifies ref ws i \<longleftrightarrow>
     list_all (\<lambda>j. word (ref ! (i + j)) = ws ! j) [0..<length ws] \<and>
     list_all (\<lambda>j. start_time (ref ! (i + j + 1)) - start_time (ref ! (i + j)) \<le> 1 / 2)
       [0..<length ws - 1]"
  by (auto simp: window_qualifies_def list_all_iff)

lemma scenario_a_search:
  "perform_kws_search scenario_a_reference [scenario_a_query] = Inr [scenario_a_hit]"
  by (simp add: perform_kws_search_def scenario_a_reference_def scenario_a_query_def
      scenario_a_hit_def py_range_def upt_rec search_at_def iloc_slice_def fillna_def
      make_hit_def mean_def)

lemma scenario_a_windows:
  "matched_windows scenario_a_reference [scenario_a_query] = [(scenario_a_query, 0)]"
  by (simp add: matched_windows_def start_offsets_def window_qualifies_list
      scenario_a_reference_def scenario_a_query_def upt_rec)

lemma overlap_search:
  "perform_kws_search overlap_reference [overlap_query] = Inr overlap_hits"
  by (simp add: perform_kws_search_def overlap_reference_def overlap_query_def
      overlap_hits_def py_range_def upt_rec search_at_def iloc_slice_def fillna_def
      make_hit_def mean_def)

lemma overlap_windows:
  "matched_windows overlap_reference [overlap_query] = [(overlap_query, 0), (overlap_query, 1)]"
  by (simp add: matched_windows_def start_offsets_def window_qualifies_list
      overlap_reference_def overlap_query_def upt_rec)

section \<open>The claims about the matcher\<close>







text \<open>
  Claim C4. A query with zero words should raise nothing and give no hit. The code does
  neither: the empty window at offset 0 passes the word test and the time test, and
  \<^verbatim>\<open>segment.iloc[0]\<close> raises \<^verbatim>\<open>IndexError\<close>; on a reference without records
  \<^verbatim>\<open>segment['word']\<close> raises \<^verbatim>\<open>KeyError\<close>. The loader builds such a query from a
  \<^verbatim>\<open>kwtext\<close> that holds a single space.
\<close>

theorem blank_query_raises:
  "parse_queries [(''K1'', Some '' '')] = Inr [blank_query] \<and>
   perform_kws_search scenario_a_reference [blank_query] = Inl IndexError \<and>
   perform_kws_search [] [blank_query] = Inl KeyError"
  by (simp add: parse_queries_def py_split_def py_strip_def is_space_def blank_query_def
      perform_kws_search_def scenario_a_reference_def py_range_def upt_rec
      search_at_def iloc_slice_def fillna_def)

text \<open>
  Claim C5. The score of every returned hit is the unweighted arithmetic mean of the
  confidence values of the records of its window, and lies between the least and the
  greatest of them. The \<open>n\<close>-th hit belongs to the \<open>n\<close>-th qualifying window.
\<close>

theorem hit_score_mean_within_bounds:
  assumes "perform_kws_search index_df queries_df = Inr hits"
    and "n < length hits"
    and "matched_windows index_df queries_df ! n = (q, i)"
  shows "let cs = map confidence (iloc_slice index_df i (i + length (words q)))
         in cs \<noteq> [] \<and>
            hit_score (hits ! n) = sum_list cs / of_nat (length cs) \<and>
            Min (set cs) \<le> hit_score (hits ! n) \<and> hit_score (hits ! n) \<le> Max (set cs)"
proof -
  note e = emitted_hit[OF assms]
  let ?cs = "map confidence (iloc_slice index_df i (i + length (words q)))"
  have "length ?cs = length (words q)" using e(4) by (simp add: segment_length)
  with e(3) have ne: "?cs \<noteq> []" by auto
  have s: "hit_score (hits ! n) = mean ?cs" unfolding e(1) by (simp add: make_hit_fields)
  from mean_bounds[OF ne] s ne show ?thesis by (simp add: Let_def mean_def)
qed

theorem hit_score_mean_within_bounds_witness:
  "perform_kws_search scenario_a_reference [scenario_a_query] = Inr [scenario_a_hit] \<and>
   matched_windows scenario_a_reference [scenario_a_query] ! 0 = (scenario_a_query, 0) \<and>
   map confidence (iloc_slice scenario_a_reference 0 (0 + length (words scenario_a_query))) =
     [9 / 10, 8 / 10] \<and>
   hit_score ([scenario_a_hit] ! 0) = (9 / 10 + 8 / 10) / 2 \<and>
   8 / 10 \<le> hit_score ([scenario_a_hit] ! 0) \<and> hit_score ([scenario_a_hit] ! 0) \<le> 9 / 10"
proof -
  have n: "0 < length [scenario_a_hit]" by simp
  have m: "matched_windows scenario_a_reference [scenario_a_query] ! 0 = (scenario_a_query, 0)"
    by (simp add: scenario_a_windows)
  have c: "map confidence
      (iloc_slice scenario_a_reference 0 (0 + length (words scenario_a_query))) =
      [9 / 10, 8 / 10]"
    by (simp add: iloc_slice_def scenario_a_reference_def scenario_a_query_def)
  note t = hit_score_mean_within_bounds[OF scenario_a_search n m, unfolded Let_def c]
  from t scenario_a_search m c show ?thesis by simp
qed



text \<open>
  Claim C9. The file and channel of every returned hit are those of the first record of
  its window, also when the window runs over records of several files or channels.
\<close>

theorem hit_file_channel_of_first_record:
  assumes "perform_kws_search index_df queries_df = Inr hits"
    and "n < length hits"
    and "matched_windows index_df queries_df ! n = (q, i)"
  shows "hit_file_id (hits ! n) = file_id (index_df ! i) \<and>
         hit_channel (hits ! n) = channel (index_df ! i)"
proof -
  note e = emitted_hit[OF assms]
  from e(3) have "length (words q) \<noteq> 0" by simp
  from segment_hd_last(1)[OF this e(4)] show ?thesis
    unfolding e(1) by (simp add: make_hit_fields)
qed

text \<open>
  The window at offset 1 of \<open>overlap_reference\<close> runs from file f1, channel 1 into
  file f2, channel 2; its hit carries f1 and 1.
\<close>

theorem hit_file_channel_of_first_record_witness:
  "perform_kws_search overlap_reference [overlap_query] = Inr overlap_hits \<and>
   matched_windows overlap_reference [overlap_query] ! 1 = (overlap_query, 1) \<and>
   map file_id (iloc_slice overlap_reference 1 (1 + length (words overlap_query))) =
     [''f1'', ''f2''] \<and>
   map channel (iloc_slice overlap_reference 1 (1 + length (words overlap_query))) =
     [''1'', ''2''] \<and>
   hit_file_id (overlap_hits ! 1) = ''f1'' \<and> hit_channel (overlap_hits ! 1) = ''1''"
proof -
  have n: "1 < length overlap_hits" by (simp add: overlap_hits_def)
  have m: "matched_windows overlap_reference [overlap_query] ! 1 = (overlap_query, 1)"
    by (simp add: overlap_windows)
  have f: "map file_id (iloc_slice overlap_reference 1 (1 + length (words overlap_query))) =
      [''f1'', ''f2'']"
    "map channel (iloc_slice overlap_reference 1 (1 + length (words overlap_query))) =
      [''1'', ''2'']"
    by (simp_all add: iloc_slice_def overlap_reference_def overlap_query_def)
  have r: "file_id (overlap_reference ! 1) = ''f1''" "channel (overlap_reference ! 1) = ''1''"
    by (simp_all add: overlap_reference_def)
  from hit_file_channel_of_first_record[OF overlap_search n m] overlap_search m f r
  show ?thesis by simp
qed

text \<open>
  Claim C10. A query with more words than the reference has records raises nothing and
  gives no hit: alone it returns the empty list, and among other queries the run is the
  run without it. A reference without records is included.
\<close>

theorem longer_query_no_hits:
  assumes "length index_df < length (words q)"
  shows "perform_kws_search index_df [q] = Inr [] \<and>
         perform_kws_search index_df (qs1 @ q # qs2) = perform_kws_search index_df (qs1 @ qs2)"
  unfolding perform_kws_search_def
  using search_queries_skip[OF assms, of "[]" "[]" "[]"]
    search_queries_skip[OF assms, of qs1 qs2 "[]"]
  by simp

theorem longer_query_no_hits_witness:
  "length ([] :: word_occurrence list) < length (words scenario_a_query) \<and>
   perform_kws_search [] [scenario_a_query] = Inr [] \<and>
   perform_kws_search [] ([scenario_a_query] @ scenario_a_query # [scenario_a_query]) =
     perform_kws_search [] ([scenario_a_query] @ [scenario_a_query])"
proof -
  have l: "length ([] :: word_occurrence list) < length (words scenario_a_query)"
    by (simp add: scenario_a_query_def)
  from longer_query_no_hits[OF l, of "[scenario_a_query]" "[scenario_a_query]"] l
  show ?thesis by simp
qed

section \<open>The claims about the reference loader\<close>

lemma ctm_record_ok:
  assumes "6 \<le> length parts" and "numeric_fields_parse to_float parts"
  shows "ctm_record to_float (take 6 parts) = Inr (record_of to_float parts)"
  using assms by (auto simp: ctm_record_def record_of_def numeric_fields_parse_def)

lemma ctm_record_bad:
  assumes "6 \<le> length parts" and "\<not> numeric_fields_parse to_float parts"
  shows "ctm_record to_float (take 6 parts) = Inl ValueError"
  using assms by (auto simp: ctm_record_def numeric_fields_parse_def split: option.splits)

lemma parse_ctm_lines_ok:
  assumes "\<forall>line \<in> set f. 6 \<le> length (ctm_fields line) \<longrightarrow>
             numeric_fields_parse to_float (ctm_fields line)"
  shows "parse_ctm_lines to_float f index =
     Inr (index @ map (\<lambda>line. record_of to_float (ctm_fields line))
                    (filter (\<lambda>line. 6 \<le> length (ctm_fields line)) f))"
  using assms
proof (induction f arbitrary: index)
  case Nil
  show ?case by simp
next
  case (Cons line f)
  show ?case
  proof (cases "6 \<le> length (ctm_fields line)")
    case True
    with Cons.prems have "numeric_fields_parse to_float (ctm_fields line)" by simp
    from ctm_record_ok[OF True this] True Cons show ?thesis
      by (simp add: ctm_fields_def Let_def)
  next
    case False
    with Cons show ?thesis by (simp add: ctm_fields_def Let_def)
  qed
qed

lemma parse_ctm_lines_bad:
  assumes "line \<in> set f" and "6 \<le> length (ctm_fields line)"
    and "\<not> numeric_fields_parse to_float (ctm_fields line)"
  shows "parse_ctm_lines to_float f index = Inl ValueError"
  using assms(1)
proof (induction f arbitrary: index)
  case Nil
  then show ?case by simp
next
  case (Cons l f)
  show ?case
  proof (cases "length (ctm_fields l) < 6")
    case True
    with assms(2) have "l \<noteq> line" by auto
    with Cons.prems have "line \<in> set f" by simp
    with Cons.IH True show ?thesis by (simp add: ctm_fields_def Let_def)
  next
    case long: False
    then have six: "6 \<le> length (ctm_fields l)" by simp
    show ?thesis
    proof (cases "numeric_fields_parse to_float (ctm_fields l)")
      case True
      with assms(3) have "l \<noteq> line" by auto
      with Cons.prems have "line \<in> set f" by simp
      with Cons.IH long ctm_record_ok[OF six True] show ?thesis
        by (simp add: ctm_fields_def Let_def)
    next
      case False
      from ctm_record_bad[OF six False] long show ?thesis
        by (simp add: ctm_fields_def Let_def)
    qed
  qed
qed

lemma example_float_values:
  "example_float ''0.0'' = Some 0"
  "example_float ''0.2'' = Some (2 / 10)"
  "example_float ''0.3'' = Some (3 / 10)"
  "example_float ''0.8'' = Some (8 / 10)"
  "example_float ''0.9'' = Some (9 / 10)"
  "example_float ''abc'' = None"
  "example_float ''n/a'' = None"
  by (simp_all add: example_float_def)

lemma scenario_d_fields:
  "map ctm_fields scenario_d_lines =
     [[''f1'', ''1'', ''0.0''],
      [''f1'', ''1'', ''0.0'', ''0.2'', ''go'', ''0.9''],
      [],
      [''f1'', ''1'', ''0.3'', ''0.2'', ''home'', ''0.8'', ''extra'', ''fields''],
      [''f1'', ''1'', ''0.3'', ''0.2'', ''home'']]"
  by (simp add: scenario_d_lines_def ctm_fields_def py_split_def py_strip_def is_space_def)

text \<open>
  Claim C7, as amended. When the three numeric fields of every line with at least six
  fields parse, \<open>parse_ctm\<close> raises nothing and returns, in input order, one record per
  line with at least six fields, built from the first six fields; the lines with fewer
  than six fields are skipped.
\<close>

theorem parse_ctm_one_record_per_long_line:
  assumes "\<forall>line \<in> set f. 6 \<le> length (ctm_fields line) \<longrightarrow>
             numeric_fields_parse to_float (ctm_fields line)"
  shows "parse_ctm to_float f =
     Inr (map (\<lambda>line. record_of to_float (ctm_fields line))
            (filter (\<lambda>line. 6 \<le> length (ctm_fields line)) f))"
  unfolding parse_ctm_def using parse_ctm_lines_ok[OF assms, of "[]"] by simp

text \<open>Scenario D: two valid lines among three short ones give exactly two records.\<close>

theorem parse_ctm_one_record_per_long_line_witness:
  "map (\<lambda>line. length (ctm_fields line)) scenario_d_lines = [3, 6, 0, 8, 5] \<and>
   parse_ctm example_float scenario_d_lines =
     Inr [\<lparr>file_id = ''f1'', channel = ''1'', start_time = 0, duration = 2 / 10,
           word = ''go'', confidence = 9 / 10\<rparr>,
          \<lparr>file_id = ''f1'', channel = ''1'', start_time = 3 / 10, duration = 2 / 10,
           word = ''home'', confidence = 8 / 10\<rparr>]"
proof -
  have a: "\<forall>line \<in> set scenario_d_lines. 6 \<le> length (ctm_fields line) \<longrightarrow>
      numeric_fields_parse example_float (ctm_fields line)"
    using scenario_d_fields
    by (simp add: scenario_d_lines_def numeric_fields_parse_def example_float_values
        del: not_None_eq)
  from parse_ctm_one_record_per_long_line[OF a] scenario_d_fields show ?thesis
    by (simp add: scenario_d_lines_def record_of_def example_float_values)
qed

text \<open>
  The claim as stated fails: a line of six fields whose start time is not a number gives
  no record, the load raises \<^verbatim>\<open>ValueError\<close>.
\<close>

theorem parse_ctm_long_line_without_record:
  "length (ctm_fields ''f1 1 abc 0.2 go 0.9'') = 6 \<and>
   parse_ctm example_float [''f1 1 abc 0.2 go 0.9''] = Inl ValueError"
  by (simp add: parse_ctm_def ctm_fields_def py_split_def py_strip_def is_space_def
      ctm_record_def example_float_def)

text \<open>
  Claim C8. When some line has at least six fields and its start time, duration or
  confidence field does not parse as a number, \<open>parse_ctm\<close> raises \<^verbatim>\<open>ValueError\<close>:
  the line is not skipped and no record sequence is returned.
\<close>

theorem parse_ctm_unparsable_number_raises:
  assumes "line \<in> set f" and "6 \<le> length (ctm_fields line)"
    and "to_float (ctm_fields line ! 2) = None \<or> to_float (ctm_fields line ! 3) = None \<or>
         to_float (ctm_fields line ! 5) = None"
  shows "parse_ctm to_float f = Inl ValueError"
proof -
  from assms(3) have "\<not> numeric_fields_parse to_float (ctm_fields line)"
    by (auto simp: numeric_fields_parse_def)
  from parse_ctm_lines_bad[OF assms(1,2) this] show ?thesis by (simp add: parse_ctm_def)
qed

theorem parse_ctm_unparsable_number_raises_witness:
  "unparsable_lines ! 1 = ''f1 1 0.3 0.2 home n/a'' \<and>
   ctm_fields ''f1 1 0.3 0.2 home n/a'' = [''f1'', ''1'', ''0.3'', ''0.2'', ''home'', ''n/a''] \<and>
   example_float ''n/a'' = None \<and>
   parse_ctm example_float unparsable_lines = Inl ValueError"
proof -
  have f: "ctm_fields ''f1 1 0.3 0.2 home n/a'' =
      [''f1'', ''1'', ''0.3'', ''0.2'', ''home'', ''n/a'']"
    by (simp add: ctm_fields_def py_split_def py_strip_def is_space_def)
  have m: "''f1 1 0.3 0.2 home n/a'' \<in> set unparsable_lines"
    by (simp add: unparsable_lines_def)
  have l: "6 \<le> length (ctm_fields ''f1 1 0.3 0.2 home n/a'')" by (simp add: f)
  have n: "example_float ''n/a'' = None" by (simp add: example_float_def)
  then have b: "example_float (ctm_fields ''f1 1 0.3 0.2 home n/a'' ! 2) = None \<or>
      example_float (ctm_fields ''f1 1 0.3 0.2 home n/a'' ! 3) = None \<or>
      example_float (ctm_fields ''f1 1 0.3 0.2 home n/a'' ! 5) = None"
    by (simp add: f)
  from parse_ctm_unparsable_number_raises[OF m l b] f n show ?thesis
    by (simp add: unparsable_lines_def)
qed

end
